theory Spec2Isabelle
  imports Main
begin

section \<open>Operation model\<close>

text \<open>
  The \<open>Operation\<close> interface of \<open>frontend/src/types/activity.ts\<close>. JavaScript numbers
  that hold positions, lengths, timestamps and versions are modelled as \<open>int\<close>; strings are
  lists of characters, so \<open>length\<close> plays the role of the \<open>.length\<close> property. The operation
  type stays a string, as it is at run time (\<open>validateOperation\<close> checks it against the four
  legal names). The optional fields \<open>length\<close> and \<open>content\<close> are modelled as always present:
  every read of \<open>length\<close> in the transform and apply functions is on a delete operation and
  every read of \<open>content\<close> is on an insert operation. The fields \<open>id\<close> and \<open>length\<close> are
  named \<open>id_op\<close> and \<open>length_op\<close> here.
\<close>

record Operation =
  id_op :: string
  type :: string
  position :: int
  length_op :: int
  content :: string
  userId :: string
  timestamp :: int
  sequenceNumber :: int

section \<open>String slicing\<close>

text \<open>
  \<open>String.prototype.slice\<close>: a negative index counts from the end of the string, every
  index is clamped into \<open>0 .. length\<close>, and an empty string results when the end does not
  lie after the start.
\<close>

definition sliceIndex :: "int \<Rightarrow> nat \<Rightarrow> nat" where
  "sliceIndex i len = (if i < 0 then nat (max (int len + i) 0) else min (nat i) len)"

definition slice :: "string \<Rightarrow> int \<Rightarrow> int \<Rightarrow> string" where
  "slice s start stop =
     (let from = sliceIndex start (length s); to = sliceIndex stop (length s)
      in take (to - from) (drop from s))"

definition sliceFrom :: "string \<Rightarrow> int \<Rightarrow> string" where
  "sliceFrom s start = drop (sliceIndex start (length s)) s"

section \<open>The transform functions of OperationalTransformService\<close>

text \<open>
  The service \<open>backend/src/services/operationalTransformService.ts\<close> as it is listed in
  \<open>real-time-collaboration-guide.md\<close>: the four pairwise transforms, their dispatch on
  the two operation types, and the application of an operation to a content string.
\<close>

definition transformInsertInsert :: "Operation \<Rightarrow> Operation \<Rightarrow> Operation" where
  "transformInsertInsert op1 op2 =
     (if position op1 \<le> position op2 then op1
      else op1\<lparr>position := position op1 + int (length (content op2))\<rparr>)"

definition transformInsertDelete :: "Operation \<Rightarrow> Operation \<Rightarrow> Operation" where
  "transformInsertDelete op1 op2 =
     (if position op1 \<le> position op2 then op1
      else if position op1 \<ge> position op2 + length_op op2
        then op1\<lparr>position := position op1 - length_op op2\<rparr>
      else op1\<lparr>position := position op2\<rparr>)"

definition transformDeleteInsert :: "Operation \<Rightarrow> Operation \<Rightarrow> Operation" where
  "transformDeleteInsert op1 op2 =
     (if position op1 + length_op op1 \<le> position op2 then op1
      else if position op1 \<ge> position op2
        then op1\<lparr>position := position op1 + int (length (content op2))\<rparr>
      else op1\<lparr>length_op := position op1 - position op2\<rparr>)"

definition transformDeleteDelete :: "Operation \<Rightarrow> Operation \<Rightarrow> Operation" where
  "transformDeleteDelete op1 op2 =
     (if position op1 + length_op op1 \<le> position op2 then op1
      else if position op1 \<ge> position op2 + length_op op2
        then op1\<lparr>position := position op1 - length_op op2\<rparr>
      else
        (let start1 = position op1;
             end1 = position op1 + length_op op1;
             start2 = position op2;
             end2 = position op2 + length_op op2
         in if start1 \<le> start2 \<and> end1 \<ge> end2
              then op1\<lparr>length_op := length_op op1 - length_op op2\<rparr>
            else if start1 \<ge> start2 \<and> end1 \<le> end2
              then op1\<lparr>length_op := 0\<rparr>
            else
              (let overlap = min end1 end2 - max start1 start2
               in op1\<lparr>length_op := length_op op1 - overlap\<rparr>)))"

definition transform :: "Operation \<Rightarrow> Operation \<Rightarrow> Operation" where
  "transform op1 op2 =
     (if type op1 = ''insert'' \<and> type op2 = ''insert'' then transformInsertInsert op1 op2
      else if type op1 = ''insert'' \<and> type op2 = ''delete'' then transformInsertDelete op1 op2
      else if type op1 = ''delete'' \<and> type op2 = ''insert'' then transformDeleteInsert op1 op2
      else if type op1 = ''delete'' \<and> type op2 = ''delete'' then transformDeleteDelete op1 op2
      else op1)"

definition applyToContent :: "string \<Rightarrow> Operation \<Rightarrow> string" where
  "applyToContent c operation =
     (if type operation = ''insert''
        then slice c 0 (position operation) @ content operation @ sliceFrom c (position operation)
      else if type operation = ''delete''
        then slice c 0 (position operation)
             @ sliceFrom c (position operation + length_op operation)
      else c)"

section \<open>OperationalTransformService: document states\<close>

text \<open>
  \<open>DocumentState\<close> holds the fields \<open>content\<close>, \<open>version\<close> and \<open>operations\<close>; the service keeps
  a \<open>Map\<close> from entity id to document state. \<open>TransformResult\<close> is what \<open>applyOperation\<close>
  returns. The fields carry a suffix to keep them apart from those of \<open>Operation\<close>.
\<close>

record DocumentState =
  content_doc :: string
  version_doc :: int
  operations_doc :: "Operation list"

record TransformResult =
  operation_res :: Operation
  content_res :: string
  version_res :: int

type_synonym documentStates = "string \<rightharpoonup> DocumentState"

datatype error = DocumentNotFound | DatabaseError | TypeError

definition initializeDocument :: "string \<Rightarrow> string \<Rightarrow> documentStates \<Rightarrow> documentStates" where
  "initializeDocument entityId c ds =
     ds(entityId \<mapsto> \<lparr>content_doc = c, version_doc = 0, operations_doc = []\<rparr>)"

definition areConcurrent :: "Operation \<Rightarrow> Operation \<Rightarrow> bool" where
  "areConcurrent op1 op2 =
     (userId op1 \<noteq> userId op2 \<and> \<bar>timestamp op1 - timestamp op2\<bar> < 1000)"

text \<open>
  The private method \<open>transformOperation\<close> of the service: the loop over the document's
  operations, transforming against those that \<open>areConcurrent\<close> with the submitted one.
\<close>

definition transformOperation_service :: "Operation \<Rightarrow> DocumentState \<Rightarrow> Operation" where
  "transformOperation_service operation docState =
     foldl (\<lambda>transformedOp concurrentOp.
              if areConcurrent operation concurrentOp
              then transform transformedOp concurrentOp else transformedOp)
           operation (operations_doc docState)"

text \<open>
  \<open>applyOperation\<close> of the service. A missing document throws before anything changes.
  \<open>persistOperation\<close> is the database write at the end: \<open>persistOk\<close> tells whether it
  succeeds; when it throws, the document state has already been updated, so the state is
  returned next to the error.
\<close>

definition applyOperation_service ::
  "bool \<Rightarrow> string \<Rightarrow> Operation \<Rightarrow> documentStates \<Rightarrow> documentStates \<times> (error + TransformResult)" where
  "applyOperation_service persistOk entityId operation ds =
     (case ds entityId of
        None \<Rightarrow> (ds, Inl DocumentNotFound)
      | Some docState \<Rightarrow>
          (let transformedOp = transformOperation_service operation docState;
               newContent = applyToContent (content_doc docState) transformedOp;
               docState' = \<lparr>content_doc = newContent,
                            version_doc = version_doc docState + 1,
                            operations_doc = operations_doc docState @ [transformedOp]\<rparr>;
               ds' = ds(entityId \<mapsto> docState')
           in if persistOk
              then (ds', Inr \<lparr>operation_res = transformedOp, content_res = newContent,
                              version_res = version_doc docState'\<rparr>)
              else (ds', Inl DatabaseError)))"

text \<open>
  A run of calls of \<open>applyOperation\<close> on one entity, each with the outcome of its database
  write; the run is \<open>None\<close> as soon as one call throws.
\<close>

fun applyOperations :: "string \<Rightarrow> (bool \<times> Operation) list \<Rightarrow> documentStates \<Rightarrow> documentStates option" where
  "applyOperations entityId [] ds = Some ds"
| "applyOperations entityId ((persistOk, operation) # rest) ds =
     (case applyOperation_service persistOk entityId operation ds of
        (ds', Inr r) \<Rightarrow> applyOperations entityId rest ds'
      | (ds', Inl e) \<Rightarrow> None)"

section \<open>The socket gateway (socketHandler.ts)\<close>

definition transformAgainstOperation :: "Operation \<Rightarrow> Operation \<Rightarrow> Operation" where
  "transformAgainstOperation operation1 operation2 =
     (if type operation1 = ''insert'' \<and> type operation2 = ''insert'' then
        (if position operation1 \<le> position operation2 then operation1
         else operation1\<lparr>position := position operation1 + int (length (content operation2))\<rparr>)
      else if type operation1 = ''delete'' \<and> type operation2 = ''insert'' then
        (if position operation1 \<le> position operation2 then operation1
         else operation1\<lparr>position := position operation1 + int (length (content operation2))\<rparr>)
      else if type operation1 = ''insert'' \<and> type operation2 = ''delete'' then
        (if position operation1 \<le> position operation2 then operation1
         else if position operation1 \<ge> position operation2 + length_op operation2
           then operation1\<lparr>position := position operation1 - length_op operation2\<rparr>
         else operation1\<lparr>position := position operation2\<rparr>)
      else operation1)"

text \<open>
  \<open>getOperationsBetweenVersions\<close> is a stub that returns the empty array. Its first two
  arguments are read from \<open>operation.entityType\<close> and \<open>operation.entityId\<close>, properties that
  the \<open>Operation\<close> interface does not have; they are optional strings here.
\<close>

definition getOperationsBetweenVersions ::
  "string option \<Rightarrow> string option \<Rightarrow> int \<Rightarrow> int \<Rightarrow> Operation list" where
  "getOperationsBetweenVersions entityType entityId fromVersion toVersion = []"

definition transformOperation :: "Operation \<Rightarrow> int \<Rightarrow> int \<Rightarrow> Operation" where
  "transformOperation operation fromVersion toVersion =
     foldl transformAgainstOperation operation
       (getOperationsBetweenVersions None None fromVersion toVersion)"

definition validateOperation :: "Operation \<Rightarrow> bool" where
  "validateOperation operation =
     (if id_op operation = [] \<or> type operation = [] then False
      else if type operation \<notin> set [''insert'', ''delete'', ''retain'', ''format''] then False
      else if position operation < 0 then False
      else if type operation = ''delete'' \<and> length_op operation \<le> 0 then False
      else if type operation = ''insert'' \<and> content operation = [] then False
      else True)"

text \<open>
  The gateway means to keep the version of an entity in Redis under the key
  \<open>version:<entityType>:<entityId>\<close> and to append every applied operation to the
  \<open>operation\<close> table of the database. The version would be written with \<open>toString\<close> and
  read back with \<open>parseInt\<close>; the model stores the number itself.
\<close>

record OperationRow =
  entityType_row :: string
  entityId_row :: string
  userId_row :: string
  operationType_row :: string
  operationData_row :: Operation
  sequenceNumber_row :: int

record Backend =
  redis :: "string \<rightharpoonup> int"
  operationTable :: "OperationRow list"

text \<open>
  \<open>socketHandler.ts\<close> reads and writes the version through \<open>cacheUtils.getRedisValue\<close> and
  \<open>cacheUtils.setRedisValue\<close>. The object \<open>cacheUtils\<close> exported by \<open>database/redis.ts\<close>
  has the six members listed here and no others; \<open>getRedisValue\<close> and \<open>setRedisValue\<close>
  are separate exports of that module, which the handler does not import. Calling a member
  that an object does not have throws a \<open>TypeError\<close>.
\<close>

definition cacheUtils :: "string list" where
  "cacheUtils =
     [''cacheUserSession'', ''getUserSession'', ''deleteUserSession'',
      ''cacheApiResponse'', ''getCachedApiResponse'', ''invalidateCachePattern'']"

text \<open>
  Whether the \<open>prisma.operation.create\<close> call of \<open>applyOperation\<close> succeeds.
\<close>

record Outcomes =
  createOk :: bool

definition versionKey :: "string \<Rightarrow> string \<Rightarrow> string" where
  "versionKey entityType entityId = ''version:'' @ entityType @ '':'' @ entityId"

text \<open>
  \<open>getCurrentVersion\<close>: the call of \<open>cacheUtils.getRedisValue\<close> is inside the \<open>try\<close>
  block, and the \<open>catch\<close> block returns 0.
\<close>

definition getCurrentVersion :: "string \<Rightarrow> string \<Rightarrow> Backend \<Rightarrow> int" where
  "getCurrentVersion entityType entityId b =
     (if ''getRedisValue'' \<in> set cacheUtils
      then (case redis b (versionKey entityType entityId) of
              Some cachedVersion \<Rightarrow> cachedVersion
            | None \<Rightarrow> 0)
      else 0)"

text \<open>
  \<open>applyOperation\<close>: the \<open>catch\<close> block logs and rethrows, so the \<open>TypeError\<close> of the
  call of \<open>cacheUtils.setRedisValue\<close> leaves the function before anything is written.
\<close>

definition applyOperation ::
  "Outcomes \<Rightarrow> string \<Rightarrow> string \<Rightarrow> Operation \<Rightarrow> Backend \<Rightarrow> Backend \<times> error option" where
  "applyOperation env entityType entityId operation b =
     (let currentVersion = getCurrentVersion entityType entityId b
      in if ''setRedisValue'' \<notin> set cacheUtils then (b, Some TypeError)
         else
           (let b1 = b\<lparr>redis := (redis b)(versionKey entityType entityId \<mapsto> currentVersion + 1)\<rparr>
            in if \<not> createOk env then (b1, Some DatabaseError)
               else
                 (b1\<lparr>operationTable := operationTable b1 @
                       [\<lparr>entityType_row = entityType, entityId_row = entityId,
                         userId_row = userId operation, operationType_row = type operation,
                         operationData_row = operation,
                         sequenceNumber_row = currentVersion + 1\<rparr>]\<rparr>,
                  None)))"

text \<open>
  The payload of \<open>operation:send\<close>, and what the handler emits: \<open>socket.emit\<close> reaches the
  sender only, \<open>socket.to(room).emit\<close> reaches the other members of the room.
\<close>

record OperationData =
  entityType_data :: string
  entityId_data :: string
  operation_data :: Operation
  version_data :: int

datatype Target = ToSender | ToOthersIn string

datatype Event =
    OperationError string string
  | OperationReceive string string Operation int
  | OperationAck string int

definition operation_send ::
  "Outcomes \<Rightarrow> OperationData \<Rightarrow> Backend \<Rightarrow> Backend \<times> (Target \<times> Event) list" where
  "operation_send env d b =
     (if entityType_data d = [] \<or> entityId_data d = [] then (b, [])
      else if \<not> validateOperation (operation_data d)
        then (b, [(ToSender, OperationError (id_op (operation_data d)) ''Invalid operation'')])
      else
        (let currentVersion =
               getCurrentVersion (entityType_data d) (entityId_data d) b;
             room = entityType_data d @ '':'' @ entityId_data d
         in if version_data d \<noteq> currentVersion then
              (let transformedOperation =
                     transformOperation (operation_data d) (version_data d) currentVersion
               in case applyOperation env (entityType_data d) (entityId_data d)
                         transformedOperation b of
                    (b', Some e) \<Rightarrow>
                      (b', [(ToSender, OperationError (id_op (operation_data d))
                                         ''Failed to process operation'')])
                  | (b', None) \<Rightarrow>
                      (b', [(ToOthersIn room,
                             OperationReceive (entityType_data d) (entityId_data d)
                               transformedOperation (currentVersion + 1)),
                            (ToSender,
                             OperationAck (id_op (operation_data d)) (currentVersion + 1))]))
            else
              (case applyOperation env (entityType_data d) (entityId_data d)
                      (operation_data d) b of
                 (b', Some e) \<Rightarrow>
                   (b', [(ToSender, OperationError (id_op (operation_data d))
                                      ''Failed to process operation'')])
               | (b', None) \<Rightarrow>
                   (b', [(ToOthersIn room,
                          OperationReceive (entityType_data d) (entityId_data d)
                            (operation_data d) (version_data d + 1)),
                         (ToSender,
                          OperationAck (id_op (operation_data d)) (version_data d + 1))]))))"

section \<open>PresenceService\<close>

text \<open>
  The in-memory \<open>Map\<close> of presences is a list of key-value pairs in insertion order, the
  order in which \<open>entries()\<close> visits them. Times are milliseconds. \<open>io.to(room).emit\<close>
  reaches every member of the room; the emitted events are collected in order.
\<close>

record Presence =
  id_p :: string
  userId_p :: string
  entityType_p :: string
  entityId_p :: string
  status_p :: string
  cursorPosition_p :: "(int \<times> int) option"
  lastSeen_p :: int

datatype PresenceEvent =
    PresenceUpdate Presence
  | PresenceRemove string string string

record PresenceService =
  presences :: "(string \<times> Presence) list"
  emitted :: "(string \<times> PresenceEvent) list"

definition presenceKey :: "string \<Rightarrow> string \<Rightarrow> string \<Rightarrow> string" where
  "presenceKey userId' entityType entityId = userId' @ '':'' @ entityType @ '':'' @ entityId"

definition mapSet :: "string \<Rightarrow> Presence \<Rightarrow> (string \<times> Presence) list \<Rightarrow> (string \<times> Presence) list" where
  "mapSet k v m =
     (if k \<in> fst ` set m then map (\<lambda>(k', v'). if k' = k then (k, v) else (k', v')) m
      else m @ [(k, v)])"

definition mapDelete :: "string \<Rightarrow> (string \<times> Presence) list \<Rightarrow> (string \<times> Presence) list" where
  "mapDelete k m = filter (\<lambda>(k', v'). k' \<noteq> k) m"

definition broadcastPresenceUpdate :: "Presence \<Rightarrow> PresenceService \<Rightarrow> PresenceService" where
  "broadcastPresenceUpdate presence s =
     s\<lparr>emitted := emitted s @
          [(entityType_p presence @ '':'' @ entityId_p presence, PresenceUpdate presence)]\<rparr>"

definition broadcastPresenceRemoval ::
  "string \<Rightarrow> string \<Rightarrow> string \<Rightarrow> PresenceService \<Rightarrow> PresenceService" where
  "broadcastPresenceRemoval userId' entityType entityId s =
     s\<lparr>emitted := emitted s @
          [(entityType @ '':'' @ entityId, PresenceRemove userId' entityType entityId)]\<rparr>"

text \<open>
  \<open>updatePresence\<close> and \<open>removePresence\<close> change the map first and then await a database
  call; \<open>dbOk\<close> tells whether that call succeeds. When it throws, the broadcast that follows
  it is not reached.
\<close>

definition updatePresence ::
  "bool \<Rightarrow> int \<Rightarrow> string \<Rightarrow> string \<Rightarrow> string \<Rightarrow> string \<Rightarrow> (int \<times> int) option
     \<Rightarrow> PresenceService \<Rightarrow> PresenceService \<times> (error + Presence)" where
  "updatePresence dbOk now userId' entityType entityId status cursorPosition s =
     (let key = presenceKey userId' entityType entityId;
          presence = \<lparr>id_p = key, userId_p = userId', entityType_p = entityType,
                      entityId_p = entityId, status_p = status,
                      cursorPosition_p = cursorPosition, lastSeen_p = now\<rparr>;
          s1 = s\<lparr>presences := mapSet key presence (presences s)\<rparr>
      in if \<not> dbOk then (s1, Inl DatabaseError)
         else (broadcastPresenceUpdate presence s1, Inr presence))"

definition removePresence ::
  "bool \<Rightarrow> string \<Rightarrow> string \<Rightarrow> string \<Rightarrow> PresenceService \<Rightarrow> PresenceService \<times> error option" where
  "removePresence dbOk userId' entityType entityId s =
     (let key = presenceKey userId' entityType entityId;
          s1 = s\<lparr>presences := mapDelete key (presences s)\<rparr>
      in if \<not> dbOk then (s1, Some DatabaseError)
         else (broadcastPresenceRemoval userId' entityType entityId s1, None))"

definition inactiveThreshold :: int where
  "inactiveThreshold = 5 * 60 * 1000"

text \<open>
  The loop of \<open>cleanupInactivePresences\<close> over \<open>this.presences.entries()\<close>. The iterator is
  live: an entry deleted before the iterator reaches it is not visited. \<open>dbOk\<close> gives, for
  the key of each entry, whether the database delete for it succeeds; when it throws, the
  exception leaves the loop.
\<close>

fun cleanupLoop ::
  "(string \<Rightarrow> bool) \<Rightarrow> int \<Rightarrow> (string \<times> Presence) list \<Rightarrow> PresenceService
     \<Rightarrow> PresenceService \<times> error option" where
  "cleanupLoop dbOk now [] s = (s, None)"
| "cleanupLoop dbOk now ((key, presence) # rest) s =
     (if key \<notin> fst ` set (presences s) then cleanupLoop dbOk now rest s
      else if now - lastSeen_p presence > inactiveThreshold then
        (case removePresence (dbOk key) (userId_p presence) (entityType_p presence)
                (entityId_p presence) (s\<lparr>presences := mapDelete key (presences s)\<rparr>) of
           (s', Some e) \<Rightarrow> (s', Some e)
         | (s', None) \<Rightarrow> cleanupLoop dbOk now rest s')
      else cleanupLoop dbOk now rest s)"

definition cleanupInactivePresences ::
  "(string \<Rightarrow> bool) \<Rightarrow> int \<Rightarrow> PresenceService \<Rightarrow> PresenceService \<times> error option" where
  "cleanupInactivePresences dbOk now s = cleanupLoop dbOk now (presences s) s"

section \<open>Concrete operations for the examples\<close>

text \<open>
  An insert and a delete operation with the given id, position, text or length, author
  and timestamp.
\<close>

definition insertOp :: "string \<Rightarrow> int \<Rightarrow> string \<Rightarrow> string \<Rightarrow> int \<Rightarrow> Operation" where
  "insertOp i p c u t =
     \<lparr>id_op = i, type = ''insert'', position = p, length_op = 0, content = c,
      userId = u, timestamp = t, sequenceNumber = 0\<rparr>"

definition deleteOp :: "string \<Rightarrow> int \<Rightarrow> int \<Rightarrow> string \<Rightarrow> int \<Rightarrow> Operation" where
  "deleteOp i p l u t =
     \<lparr>id_op = i, type = ''delete'', position = p, length_op = l, content = [],
      userId = u, timestamp = t, sequenceNumber = 0\<rparr>"

text \<open>
  The length of the overlap of the intervals deleted by two delete operations.
\<close>

definition overlap :: "Operation \<Rightarrow> Operation \<Rightarrow> int" where
  "overlap a b =
     max 0 (min (position a + length_op a) (position b + length_op b)
            - max (position a) (position b))"

section \<open>Concrete values for the gateway examples\<close>




text \<open>
  The document of an entity after a run of calls, when the run returned.
\<close>

definition documentOf :: "string \<Rightarrow> documentStates option \<Rightarrow> DocumentState option" where
  "documentOf entityId r = (case r of None \<Rightarrow> None | Some ds \<Rightarrow> ds entityId)"

section \<open>Notions for the presence sweep\<close>

text \<open>
  The key under which \<open>updatePresence\<close> stores a presence, and the invariant of the
  presence map: keys are unique (it is a \<open>Map\<close>) and every entry sits under the key built
  from its own fields. \<open>inactive\<close> is the test of the sweep, and \<open>removalEvent\<close> the event
  that \<open>broadcastPresenceRemoval\<close> emits for a presence, with the room it goes to.
  \<open>databaseUp\<close> and \<open>databaseDown\<close> are the two constant outcomes of the database deletes
  of a sweep, and \<open>presenceOf\<close> builds the presence that \<open>updatePresence\<close> stores.
\<close>

definition keyOf :: "Presence \<Rightarrow> string" where
  "keyOf p = presenceKey (userId_p p) (entityType_p p) (entityId_p p)"

definition wellFormed :: "(string \<times> Presence) list \<Rightarrow> bool" where
  "wellFormed m = (distinct (map fst m) \<and> (\<forall>(k, p) \<in> set m. k = keyOf p))"

definition inactive :: "int \<Rightarrow> Presence \<Rightarrow> bool" where
  "inactive now p = (now - lastSeen_p p > inactiveThreshold)"

definition removalEvent :: "Presence \<Rightarrow> string \<times> PresenceEvent" where
  "removalEvent p =
     (entityType_p p @ '':'' @ entityId_p p,
      PresenceRemove (userId_p p) (entityType_p p) (entityId_p p))"

definition databaseUp :: "string \<Rightarrow> bool" where
  "databaseUp key = True"

definition databaseDown :: "string \<Rightarrow> bool" where
  "databaseDown key = False"

definition presenceOf :: "string \<Rightarrow> string \<Rightarrow> string \<Rightarrow> string \<Rightarrow> int \<Rightarrow> Presence" where
  "presenceOf u t e st seen =
     \<lparr>id_p = presenceKey u t e, userId_p = u, entityType_p = t, entityId_p = e,
      status_p = st, cursorPosition_p = None, lastSeen_p = seen\<rparr>"

section \<open>The transform engine\<close>

lemmas ot_defs = transform_def transformInsertInsert_def transformInsertDelete_def
  transformDeleteInsert_def transformDeleteDelete_def transformAgainstOperation_def
  applyToContent_def slice_def sliceFrom_def sliceIndex_def insertOp_def deleteOp_def Let_def

text \<open>
  C1 (convergence): applying X and then \<open>transform Y X\<close> should give the same content as
  applying Y and then \<open>transform X Y\<close>. The code does not converge. On \<open>ab\<close>, with X
  inserting \<open>x\<close> and Y inserting \<open>y\<close>, both at position 1, the first order ends in \<open>ayxb\<close>
  and the second in \<open>axyb\<close>: \<open>transformInsertInsert\<close> leaves both operations unchanged. On
  \<open>abcdef\<close>, with X deleting three characters from position 2 and Y deleting two
  characters from position 1, the first order ends in \<open>af\<close> and the second in \<open>ad\<close>:
  \<open>transformDeleteDelete\<close> shortens X by the overlap but leaves its position at 2 although
  Y removed a character in front of it. With X deleting three characters from position 1
  and Y inserting \<open>XY\<close> at position 2, the first order ends in \<open>aXYef\<close> and the second in
  \<open>aabXYcdef\<close>.
\<close>

theorem convergence_fails:
  "applyToContent (applyToContent ''ab'' (insertOp ''x'' 1 ''x'' ''u1'' 1))
     (transform (insertOp ''y'' 1 ''y'' ''u2'' 2) (insertOp ''x'' 1 ''x'' ''u1'' 1)) = ''ayxb'' \<and>
   applyToContent (applyToContent ''ab'' (insertOp ''y'' 1 ''y'' ''u2'' 2))
     (transform (insertOp ''x'' 1 ''x'' ''u1'' 1) (insertOp ''y'' 1 ''y'' ''u2'' 2)) = ''axyb'' \<and>
   applyToContent (applyToContent ''abcdef'' (deleteOp ''x'' 2 3 ''u1'' 1))
     (transform (deleteOp ''y'' 1 2 ''u2'' 2) (deleteOp ''x'' 2 3 ''u1'' 1)) = ''af'' \<and>
   applyToContent (applyToContent ''abcdef'' (deleteOp ''y'' 1 2 ''u2'' 2))
     (transform (deleteOp ''x'' 2 3 ''u1'' 1) (deleteOp ''y'' 1 2 ''u2'' 2)) = ''ad'' \<and>
   applyToContent (applyToContent ''abcdef'' (deleteOp ''x'' 1 3 ''u1'' 1))
     (transform (insertOp ''y'' 2 ''XY'' ''u2'' 2) (deleteOp ''x'' 1 3 ''u1'' 1)) = ''aXYef'' \<and>
   applyToContent (applyToContent ''abcdef'' (insertOp ''y'' 2 ''XY'' ''u2'' 2))
     (transform (deleteOp ''x'' 1 3 ''u1'' 1) (insertOp ''y'' 2 ''XY'' ''u2'' 2)) = ''aabXYcdef''"
  by (simp add: ot_defs)

text \<open>
  Two inserts at different positions inside the base do converge.
\<close>

lemma slice_prefix: "0 \<le> p \<Longrightarrow> slice c 0 p = take (nat p) c"
  by (simp add: slice_def sliceIndex_def Let_def min_def)

lemma sliceFrom_suffix: "0 \<le> p \<Longrightarrow> sliceFrom c p = drop (nat p) c"
  by (simp add: sliceFrom_def sliceIndex_def min_def)

lemma insert_nat:
  assumes "type X = ''insert''" "0 \<le> position X"
  shows "applyToContent c X = take (nat (position X)) c @ content X @ drop (nat (position X)) c"
  using assms by (simp add: applyToContent_def slice_prefix sliceFrom_suffix)

lemma splice_parts:
  "take (length u + length v + length a) (u @ a @ v @ w) @ b
     @ drop (length u + length v + length a) (u @ a @ v @ w)
   = take (length u) ((u @ v) @ b @ w) @ a @ drop (length u) ((u @ v) @ b @ w)"
  by simp

lemma splice_splice:
  assumes "i < j" and "j \<le> length c"
  shows "take (j + length a) (take i c @ a @ drop i c) @ b
           @ drop (j + length a) (take i c @ a @ drop i c)
       = take i (take j c @ b @ drop j c) @ a @ drop i (take j c @ b @ drop j c)"
proof -
  define u where "u = take i c"
  define v where "v = take (j - i) (drop i c)"
  define w where "w = drop j c"
  have lu: "length u = i" using assms by (simp add: u_def)
  have lv: "length v = j - i" using assms by (simp add: v_def)
  have "drop (j - i) (drop i c) = w" using assms by (simp add: w_def)
  then have di: "drop i c = v @ w" unfolding v_def by (metis append_take_drop_id)
  have tj: "take j c = u @ v"
  proof -
    have "take j c = take (i + (j - i)) c" using assms by simp
    also have "\<dots> = take i c @ take (j - i) (drop i c)" by (rule take_add)
    finally show ?thesis by (simp add: u_def v_def)
  qed
  have j: "j = length u + length v" using assms lu lv by simp
  show ?thesis
    unfolding di tj u_def[symmetric] w_def[symmetric]
    using splice_parts[of u v a w b] lu j by (simp add: add.commute add.left_commute)
qed

lemma inserts_converge:
  assumes "type X = ''insert''" and "type Y = ''insert''"
    and "0 \<le> position X" and "position X < position Y" and "position Y \<le> int (length c)"
  shows "applyToContent (applyToContent c X) (transform Y X)
       = applyToContent (applyToContent c Y) (transform X Y)"
proof -
  define i where "i = nat (position X)"
  define j where "j = nat (position Y)"
  have ij: "position X = int i" "position Y = int j" "i < j" "j \<le> length c"
    using assms(3,4,5) by (simp_all add: i_def j_def)
  have tY: "transform Y X = Y\<lparr>position := int (j + length (content X))\<rparr>"
    using assms ij by (simp add: transform_def transformInsertInsert_def)
  have tX: "transform X Y = X"
    using assms ij by (simp add: transform_def transformInsertInsert_def)
  have aX: "applyToContent d X = take i d @ content X @ drop i d" for d
    using insert_nat[OF assms(1,3)] by (simp add: i_def)
  have aY: "applyToContent d Y = take j d @ content Y @ drop j d" for d
    using insert_nat[OF assms(2)] assms(3,4) by (simp add: j_def)
  have aY': "applyToContent d (Y\<lparr>position := int (j + length (content X))\<rparr>)
       = take (j + length (content X)) d @ content Y @ drop (j + length (content X)) d" for d
  proof -
    have n: "nat (int j + int (length (content X))) = j + length (content X)"
      by (simp add: nat_add_distrib)
    show ?thesis
      using insert_nat[of "Y\<lparr>position := int (j + length (content X))\<rparr>" d] assms(2)
      by (simp add: n)
  qed
  show ?thesis
    unfolding tY tX aX aY aY' by (rule splice_splice[OF ij(3,4)])
qed

text \<open>
  C2 (deterministic tie-break): two inserts at the same position from different authors
  should be ordered by their (clientTimestamp, authorId) pair, the smaller one first, so
  that the final content does not depend on the order in which the server receives them.
  The code orders them by arrival. A (author \<open>u1\<close>, timestamp 1) inserts \<open>x\<close> and B (author
  \<open>u2\<close>, timestamp 2) inserts \<open>y\<close>, both at position 1 of \<open>ab\<close>. The transform leaves
  each of them unchanged against the other; when A is applied first the content ends as
  \<open>ayxb\<close>, with the text of B in front, and when B is applied first it ends as \<open>axyb\<close>.
\<close>

theorem same_position_inserts_follow_arrival_order:
  "transform (insertOp ''a'' 1 ''x'' ''u1'' 1) (insertOp ''b'' 1 ''y'' ''u2'' 2)
     = insertOp ''a'' 1 ''x'' ''u1'' 1 \<and>
   transform (insertOp ''b'' 1 ''y'' ''u2'' 2) (insertOp ''a'' 1 ''x'' ''u1'' 1)
     = insertOp ''b'' 1 ''y'' ''u2'' 2 \<and>
   applyToContent (applyToContent ''ab'' (insertOp ''a'' 1 ''x'' ''u1'' 1))
     (transform (insertOp ''b'' 1 ''y'' ''u2'' 2) (insertOp ''a'' 1 ''x'' ''u1'' 1)) = ''ayxb'' \<and>
   applyToContent (applyToContent ''ab'' (insertOp ''b'' 1 ''y'' ''u2'' 2))
     (transform (insertOp ''a'' 1 ''x'' ''u1'' 1) (insertOp ''b'' 1 ''y'' ''u2'' 2)) = ''axyb''"
  by (simp add: ot_defs)

text \<open>
  This is so for every two inserts at one position: the transform compares positions only
  and reads neither the author nor the timestamp.
\<close>

lemma transform_inserts_at_same_position:
  assumes "type A = ''insert''" and "type B = ''insert''" and "position A = position B"
  shows "transform A B = A \<and> transform B A = B \<and>
         transformAgainstOperation A B = A \<and> transformAgainstOperation B A = B"
  using assms by (simp add: transform_def transformInsertInsert_def transformAgainstOperation_def)

text \<open>
  C3 (delete against insert): the first two cases of the claim hold for a delete of
  positive length.
\<close>

lemma transformDeleteInsert_outside:
  assumes "0 < length_op A"
  shows "(position A + length_op A \<le> position B \<longrightarrow> transformDeleteInsert A B = A) \<and>
         (position A \<ge> position B \<longrightarrow>
            transformDeleteInsert A B
              = A\<lparr>position := position A + int (length (content B))\<rparr>)"
  using assms by (auto simp: transformDeleteInsert_def)

text \<open>
  C3, third case: when the insertion point lies strictly inside the deleted range the
  delete should grow by the length of the inserted text. The code sets the length to
  \<open>op1.position - op2.position\<close>, a negative number: for a delete of three characters from
  position 1 and an insert of \<open>XY\<close> at position 2 the transformed length is -1, not 5,
  and applying it after the insert makes \<open>abXYcdef\<close> longer instead of deleting. The
  gateway's \<open>transformAgainstOperation\<close> leaves the delete as it is.
\<close>

theorem transform_delete_insert_inside_range:
  "transform (deleteOp ''a'' 1 3 ''u1'' 1) (insertOp ''b'' 2 ''XY'' ''u2'' 2)
     = deleteOp ''a'' 1 (- 1) ''u1'' 1 \<and>
   applyToContent ''abXYcdef'' (deleteOp ''a'' 1 (- 1) ''u1'' 1) = ''aabXYcdef'' \<and>
   transformAgainstOperation (deleteOp ''a'' 1 3 ''u1'' 1) (insertOp ''b'' 2 ''XY'' ''u2'' 2)
     = deleteOp ''a'' 1 3 ''u1'' 1"
  by (simp add: ot_defs)

text \<open>
  C4 (delete against delete): the length part of the claim holds, the transformed length
  is the length minus the overlap of the two deleted intervals; and scenario B of the
  specification comes out as stated.
\<close>

lemma transformDeleteDelete_length:
  assumes "0 \<le> length_op A" and "0 \<le> length_op B"
  shows "length_op (transformDeleteDelete A B) = length_op A - overlap A B"
  using assms by (auto simp: transformDeleteDelete_def overlap_def Let_def min_def max_def)

lemma scenario_B:
  "applyToContent ''abcdef'' (deleteOp ''a'' 1 3 ''u1'' 1) = ''aef'' \<and>
   length_op (transform (deleteOp ''b'' 2 2 ''u2'' 2) (deleteOp ''a'' 1 3 ''u1'' 1)) = 0 \<and>
   applyToContent ''aef'' (transform (deleteOp ''b'' 2 2 ''u2'' 2) (deleteOp ''a'' 1 3 ''u1'' 1))
     = ''aef''"
  by (simp add: ot_defs)

text \<open>
  C4, the position: when B starts before A, the position of A should move left. The code
  moves it only when B ends before A starts; when the two ranges overlap the position is
  left alone. On \<open>abcdef\<close>, with B deleting \<open>bcd\<close> (position 1, length 3) applied first and
  A deleting \<open>de\<close> (position 3, length 2), the transformed A keeps position 3 with length 1,
  and applying it to \<open>aef\<close> deletes nothing, although \<open>e\<close> is still there at position 1.
  The gateway's \<open>transformAgainstOperation\<close> has no case for two deletes and returns A as
  it is.
\<close>

theorem transform_delete_delete_keeps_position:
  "transform (deleteOp ''a'' 3 2 ''u1'' 1) (deleteOp ''b'' 1 3 ''u2'' 2)
     = deleteOp ''a'' 3 1 ''u1'' 1 \<and>
   applyToContent ''abcdef'' (deleteOp ''b'' 1 3 ''u2'' 2) = ''aef'' \<and>
   applyToContent ''aef'' (deleteOp ''a'' 3 1 ''u1'' 1) = ''aef'' \<and>
   transformAgainstOperation (deleteOp ''a'' 3 2 ''u1'' 1) (deleteOp ''b'' 1 3 ''u2'' 2)
     = deleteOp ''a'' 3 2 ''u1'' 1"
  by (simp add: ot_defs)

section \<open>The document states of the service\<close>

lemmas service_defs = applyOperation_service_def initializeDocument_def
  transformOperation_service_def areConcurrent_def documentOf_def

lemma applyOperation_service_Inr:
  assumes "applyOperation_service ok entityId operation ds = (ds', Inr r)"
  shows "\<exists>d d'. ds entityId = Some d \<and> ds' entityId = Some d' \<and>
           version_doc d' = version_doc d + 1 \<and>
           length (operations_doc d') = length (operations_doc d) + 1"
  using assms by (auto simp: applyOperation_service_def Let_def split: option.splits if_splits)

lemma applyOperations_counts:
  assumes "applyOperations entityId calls ds = Some ds'" and "ds entityId = Some d"
  shows "\<exists>d'. ds' entityId = Some d' \<and>
           version_doc d' = version_doc d + int (length calls) \<and>
           length (operations_doc d') = length (operations_doc d) + length calls"
  using assms
proof (induction calls arbitrary: ds d)
  case Nil
  then show ?case by simp
next
  case (Cons call calls)
  obtain ok operation where call: "call = (ok, operation)" by (cases call)
  from Cons.prems(1) call obtain ds1 r where
    step: "applyOperation_service ok entityId operation ds = (ds1, Inr r)"
    and rest: "applyOperations entityId calls ds1 = Some ds'"
    by (auto split: prod.splits sum.splits)
  from applyOperation_service_Inr[OF step] Cons.prems(2) obtain d1 where
    d1: "ds1 entityId = Some d1" "version_doc d1 = version_doc d + 1"
        "length (operations_doc d1) = length (operations_doc d) + 1"
    by auto
  from Cons.IH[OF rest d1(1)] d1(2,3) show ?case by auto
qed

text \<open>
  C8 (monotonic version): after a run of N calls of \<open>applyOperation\<close> that all return,
  started from \<open>initializeDocument\<close>, the version of the document is N and its list of
  operations has length N.
\<close>

theorem version_counts_applied_operations:
  assumes "applyOperations entityId calls (initializeDocument entityId c ds) = Some ds'"
  shows "\<exists>d. ds' entityId = Some d \<and> version_doc d = int (length calls) \<and>
             length (operations_doc d) = length calls"
  using applyOperations_counts
          [OF assms, of "\<lparr>content_doc = c, version_doc = 0, operations_doc = []\<rparr>"]
  by (simp add: initializeDocument_def)

theorem version_counts_applied_operations_witness:
  "applyOperations ''t1''
     [(True, insertOp ''op1'' 0 ''x'' ''u1'' 1), (True, deleteOp ''op2'' 1 1 ''u2'' 5000)]
     (initializeDocument ''t1'' ''ab'' Map.empty)
   = Some [''t1'' \<mapsto> \<lparr>content_doc = ''xb'', version_doc = 2,
             operations_doc = [insertOp ''op1'' 0 ''x'' ''u1'' 1,
                               deleteOp ''op2'' 1 1 ''u2'' 5000]\<rparr>] \<and>
   (\<exists>d. [''t1'' \<mapsto> \<lparr>content_doc = ''xb'', version_doc = 2,
             operations_doc = [insertOp ''op1'' 0 ''x'' ''u1'' 1,
                               deleteOp ''op2'' 1 1 ''u2'' 5000]\<rparr>] ''t1'' = Some d \<and>
        version_doc d = 2 \<and> length (operations_doc d) = 2)"
proof -
  have run: "applyOperations ''t1''
     [(True, insertOp ''op1'' 0 ''x'' ''u1'' 1), (True, deleteOp ''op2'' 1 1 ''u2'' 5000)]
     (initializeDocument ''t1'' ''ab'' Map.empty)
   = Some [''t1'' \<mapsto> \<lparr>content_doc = ''xb'', version_doc = 2,
             operations_doc = [insertOp ''op1'' 0 ''x'' ''u1'' 1,
                               deleteOp ''op2'' 1 1 ''u2'' 5000]\<rparr>]"
    by (simp add: service_defs ot_defs)
  from version_counts_applied_operations
         [where entityId = "''t1''" and c = "''ab''" and ds = Map.empty, OF run] run
  show ?thesis by simp
qed

text \<open>
  The invariant itself, version = number of operations, is kept by every call, also by
  one whose database write fails: the document is updated before the write.
\<close>

lemma applyOperation_service_invariant:
  assumes "applyOperation_service ok entityId operation ds = (ds', r)"
    and "ds entityId = Some d" and "version_doc d = int (length (operations_doc d))"
  shows "\<exists>d'. ds' entityId = Some d' \<and> version_doc d' = int (length (operations_doc d'))"
  using assms by (auto simp: applyOperation_service_def Let_def split: if_splits)

lemma applyOperation_service_persist_failure:
  assumes "ds entityId = Some d"
  shows "applyOperation_service False entityId operation ds =
     (ds(entityId \<mapsto>
        \<lparr>content_doc = applyToContent (content_doc d) (transformOperation_service operation d),
         version_doc = version_doc d + 1,
         operations_doc = operations_doc d @ [transformOperation_service operation d]\<rparr>),
      Inl DatabaseError)"
  using assms by (simp add: applyOperation_service_def Let_def)

text \<open>
  The other failure of \<open>applyOperation\<close>, a document that is not there, throws before
  anything is changed.
\<close>

lemma applyOperation_service_not_found:
  assumes "ds entityId = None"
  shows "applyOperation_service persistOk entityId operation ds = (ds, Inl DocumentNotFound)"
  using assms by (simp add: applyOperation_service_def)

text \<open>
  C7 (all-or-nothing): when processing an operation fails, content, version and history
  should be what they were before the submission. In the service, \<open>applyOperation\<close> updates
  the document and only then awaits \<open>persistOperation\<close>. For the document \<open>t1\<close> with content
  \<open>ab\<close> at version 0 and an insert of \<open>x\<close> at position 0 whose database write fails, the
  call throws, and the document is left with content \<open>xab\<close>, version 1 and the operation in
  its history.
\<close>

theorem failed_persistence_changes_document:
  "initializeDocument ''t1'' ''ab'' Map.empty ''t1''
     = Some \<lparr>content_doc = ''ab'', version_doc = 0, operations_doc = []\<rparr> \<and>
   snd (applyOperation_service False ''t1'' (insertOp ''op1'' 0 ''x'' ''u1'' 1)
          (initializeDocument ''t1'' ''ab'' Map.empty)) = Inl DatabaseError \<and>
   fst (applyOperation_service False ''t1'' (insertOp ''op1'' 0 ''x'' ''u1'' 1)
          (initializeDocument ''t1'' ''ab'' Map.empty)) ''t1''
     = Some \<lparr>content_doc = ''xab'', version_doc = 1,
             operations_doc = [insertOp ''op1'' 0 ''x'' ''u1'' 1]\<rparr>"
  by (simp add: service_defs ot_defs)




section \<open>The gateway\<close>

text \<open>
  C10: the gateway's \<open>transformOperation\<close> returns the operation it is given, for every
  pair of versions, because \<open>getOperationsBetweenVersions\<close> always returns the empty list;
  so what \<open>applyOperation\<close> receives on a version mismatch is the submitted operation.
\<close>

theorem transformOperation_returns_input:
  "getOperationsBetweenVersions entityType entityId fromVersion toVersion = [] \<and>
   transformOperation operation fromVersion toVersion = operation \<and>
   applyOperation env et eid (transformOperation operation fromVersion toVersion) b
     = applyOperation env et eid operation b"
  by (simp add: getOperationsBetweenVersions_def transformOperation_def)




text \<open>
  What the handler does with a submission, case by case: without an entity type or id it
  returns silently; an invalid operation is answered with \<open>Invalid operation\<close>; a valid one
  reaches \<open>applyOperation\<close>, whose exception is answered with
  \<open>Failed to process operation\<close>. In every case the error goes to the sender only, nothing
  is broadcast or acknowledged, and the backend is left as it was.
\<close>

lemma operation_send_no_entity:
  assumes "entityType_data d = [] \<or> entityId_data d = []"
  shows "operation_send env d b = (b, [])"
  using assms by (auto simp: operation_send_def)







section \<open>Re-submission\<close>




section \<open>The presence sweep\<close>

lemmas presence_defs = cleanupInactivePresences_def removePresence_def
  broadcastPresenceRemoval_def removalEvent_def presenceOf_def presenceKey_def mapDelete_def
  inactive_def inactiveThreshold_def keyOf_def wellFormed_def databaseUp_def
  databaseDown_def Let_def

text \<open>
  The invariant of the presence map holds for the empty map and is kept by
  \<open>updatePresence\<close> and \<open>removePresence\<close>, whether or not their database call succeeds.
\<close>

lemma wellFormed_empty: "wellFormed []"
  by (simp add: wellFormed_def)

lemma map_fst_replace:
  "map (fst \<circ> (\<lambda>(k', v'). if k' = k then (k, v) else (k', v'))) m = map fst m"
  by (induction m) auto

lemma wellFormed_mapSet:
  assumes "wellFormed m" and "k = keyOf v"
  shows "wellFormed (mapSet k v m)"
proof (cases "k \<in> fst ` set m")
  case True
  then show ?thesis using assms
    by (auto simp: wellFormed_def mapSet_def map_fst_replace split: if_splits)
next
  case False
  then show ?thesis using assms by (auto simp: wellFormed_def mapSet_def)
qed

lemma wellFormed_mapDelete: "wellFormed m \<Longrightarrow> wellFormed (mapDelete k m)"
  by (auto simp: wellFormed_def mapDelete_def distinct_map_filter)

lemma updatePresence_wellFormed:
  assumes "wellFormed (presences s)"
  shows "wellFormed (presences (fst (updatePresence dbOk now u t e st c s)))"
  using wellFormed_mapSet[OF assms, of "presenceKey u t e"
     "\<lparr>id_p = presenceKey u t e, userId_p = u, entityType_p = t, entityId_p = e,
       status_p = st, cursorPosition_p = c, lastSeen_p = now\<rparr>"]
  by (simp add: updatePresence_def Let_def broadcastPresenceUpdate_def keyOf_def)

lemma removePresence_wellFormed:
  assumes "wellFormed (presences s)"
  shows "wellFormed (presences (fst (removePresence dbOk u t e s)))"
  using wellFormed_mapDelete[OF assms]
  by (simp add: removePresence_def Let_def broadcastPresenceRemoval_def)

lemma mapDelete_idem: "mapDelete k (mapDelete k m) = mapDelete k m"
  by (induction m) (auto simp: mapDelete_def)

text \<open>
  What the loop of the sweep computes when the database delete succeeds for every
  inactive entry it visits: the inactive entries are gone from the map and one removal
  event per inactive entry has been emitted, in the order of the map.
\<close>

lemma cleanupLoop_closed:
  assumes "wellFormed todo" and "set todo \<subseteq> set (presences s)"
    and "\<forall>(k, p) \<in> set todo. inactive now p \<longrightarrow> dbOk k"
  shows "cleanupLoop dbOk now todo s =
     (s\<lparr>presences :=
          filter (\<lambda>(k, p). k \<notin> fst ` {e \<in> set todo. inactive now (snd e)}) (presences s),
        emitted :=
          emitted s @ map (\<lambda>(k, p). removalEvent p) (filter (\<lambda>(k, p). inactive now p) todo)\<rparr>,
      None)"
  using assms
proof (induction todo arbitrary: s)
  case Nil
  then show ?case by simp
next
  case (Cons e rest)
  obtain k p where e: "e = (k, p)" by (cases e)
  have wf_rest: "wellFormed rest" using Cons.prems(1) by (simp add: wellFormed_def)
  have kp: "k = keyOf p" using Cons.prems(1) e by (simp add: wellFormed_def)
  have fresh: "k \<notin> fst ` set rest" using Cons.prems(1) e by (auto simp: wellFormed_def)
  have present: "k \<in> fst ` set (presences s)" using Cons.prems(2) e by force
  have ok_rest: "\<forall>(k, p) \<in> set rest. inactive now p \<longrightarrow> dbOk k"
    using Cons.prems(3) by simp
  show ?case
  proof (cases "inactive now p")
    case False
    have sub: "set rest \<subseteq> set (presences s)" using Cons.prems(2) by simp
    have same: "fst ` {x \<in> set (e # rest). inactive now (snd x)}
                  = fst ` {x \<in> set rest. inactive now (snd x)}"
      using False e by auto
    have flt: "filter (\<lambda>(k, p). inactive now p) (e # rest)
                 = filter (\<lambda>(k, p). inactive now p) rest"
      using False e by simp
    have "cleanupLoop dbOk now (e # rest) s = cleanupLoop dbOk now rest s"
      using False present by (simp add: e inactive_def)
    also note Cons.IH[OF wf_rest sub ok_rest]
    finally show ?thesis unfolding same flt .
  next
    case True
    have ok: "dbOk k" using Cons.prems(3) True e by simp
    define s' where
      "s' = s\<lparr>presences := mapDelete k (presences s), emitted := emitted s @ [removalEvent p]\<rparr>"
    have step: "removePresence (dbOk k) (userId_p p) (entityType_p p) (entityId_p p)
                  (s\<lparr>presences := mapDelete k (presences s)\<rparr>) = (s', None)"
      using ok kp
      by (simp add: removePresence_def broadcastPresenceRemoval_def Let_def keyOf_def
            mapDelete_idem s'_def removalEvent_def)
    have sub: "set rest \<subseteq> set (presences s')"
      using Cons.prems(2) fresh by (force simp: s'_def mapDelete_def)
    have keys: "fst ` {x \<in> set (e # rest). inactive now (snd x)}
                  = insert k (fst ` {x \<in> set rest. inactive now (snd x)})"
      using True e by force
    have flt: "filter (\<lambda>(k', p'). k' \<notin> fst ` {x \<in> set rest. inactive now (snd x)})
                 (mapDelete k (presences s))
        = filter (\<lambda>(k', p'). k' \<notin> fst ` {x \<in> set (e # rest). inactive now (snd x)})
            (presences s)"
      unfolding keys mapDelete_def filter_filter by (rule filter_cong) auto
    have "cleanupLoop dbOk now (e # rest) s = cleanupLoop dbOk now rest s'"
      using True present step by (simp add: e inactive_def)
    also have "\<dots> =
        (s'\<lparr>presences :=
              filter (\<lambda>(k, p). k \<notin> fst ` {e \<in> set rest. inactive now (snd e)}) (presences s'),
            emitted :=
              emitted s' @
              map (\<lambda>(k, p). removalEvent p) (filter (\<lambda>(k, p). inactive now p) rest)\<rparr>,
         None)"
      by (rule Cons.IH[OF wf_rest sub ok_rest])
    also have "\<dots> =
        (s\<lparr>presences :=
             filter (\<lambda>(k, p). k \<notin> fst ` {x \<in> set (e # rest). inactive now (snd x)})
               (presences s),
           emitted :=
             emitted s @
             map (\<lambda>(k, p). removalEvent p) (filter (\<lambda>(k, p). inactive now p) (e # rest))\<rparr>,
         None)"
      using True flt by (simp add: s'_def e)
    finally show ?thesis .
  qed
qed

lemma cleanupInactivePresences_closed:
  assumes "wellFormed (presences s)"
    and "\<forall>(k, p) \<in> set (presences s). inactive now p \<longrightarrow> dbOk k"
  shows "cleanupInactivePresences dbOk now s =
     (s\<lparr>presences :=
          filter (\<lambda>(k, p). k \<notin> fst ` {e \<in> set (presences s). inactive now (snd e)})
            (presences s),
        emitted :=
          emitted s @
          map (\<lambda>(k, p). removalEvent p) (filter (\<lambda>(k, p). inactive now p) (presences s))\<rparr>,
      None)"
  unfolding cleanupInactivePresences_def
  by (rule cleanupLoop_closed[OF assms(1) subset_refl assms(2)])

text \<open>
  C9 (presence expiry): every entry older than five minutes should be deleted by the sweep
  and its removal broadcast. The sweep deletes the entry from the map and then awaits
  \<open>removePresence\<close>, whose database delete comes before the broadcast. When that delete
  throws, the entry is gone from the map without any broadcast, and the exception ends the
  loop, so a later inactive entry is neither deleted nor announced by this sweep.
\<close>

theorem sweep_counterexample:
  "inactive 400000 (presenceOf ''u1'' ''task'' ''42'' ''viewing'' 0) \<and>
   inactive 400000 (presenceOf ''u2'' ''task'' ''42'' ''editing'' 1000) \<and>
   cleanupInactivePresences databaseDown 400000
     \<lparr>presences = [(''u1:task:42'', presenceOf ''u1'' ''task'' ''42'' ''viewing'' 0),
                   (''u2:task:42'', presenceOf ''u2'' ''task'' ''42'' ''editing'' 1000)],
      emitted = []\<rparr>
   = (\<lparr>presences = [(''u2:task:42'', presenceOf ''u2'' ''task'' ''42'' ''editing'' 1000)],
       emitted = []\<rparr>, Some DatabaseError)"
  by (simp add: presence_defs)

text \<open>
  C9 as amended: when the database delete succeeds for every inactive entry, the sweep
  ends without an error, every entry whose \<open>lastSeen\<close> is more than five minutes old is
  deleted from the map, and for each of them the event that an explicit leave
  (\<open>removePresence\<close>) emits is broadcast to the room of its entity.
\<close>

theorem sweep_removes_inactive_presences:
  assumes "wellFormed (presences s)"
    and "\<forall>(k, p) \<in> set (presences s). inactive now p \<longrightarrow> dbOk k"
    and "(k, p) \<in> set (presences s)" and "inactive now p"
  shows "snd (cleanupInactivePresences dbOk now s) = None \<and>
         k \<notin> fst ` set (presences (fst (cleanupInactivePresences dbOk now s))) \<and>
         removalEvent p \<in> set (emitted (fst (cleanupInactivePresences dbOk now s))) \<and>
         emitted (fst (removePresence True (userId_p p) (entityType_p p) (entityId_p p) s))
           = emitted s @ [removalEvent p]"
proof -
  define K where "K = fst ` {e \<in> set (presences s). inactive now (snd e)}"
  define evs where
    "evs = map (\<lambda>(k, p). removalEvent p) (filter (\<lambda>(k, p). inactive now p) (presences s))"
  have run: "cleanupInactivePresences dbOk now s =
      (s\<lparr>presences := filter (\<lambda>(k, p). k \<notin> K) (presences s),
         emitted := emitted s @ evs\<rparr>, None)"
    unfolding K_def evs_def by (rule cleanupInactivePresences_closed[OF assms(1,2)])
  have k: "k \<in> K"
    unfolding K_def using assms(3,4) by force
  have ev: "removalEvent p \<in> set evs"
    unfolding evs_def using assms(3,4) by force
  have gone: "k \<notin> fst ` set (filter (\<lambda>(k, p). k \<notin> K) (presences s))"
    using k by auto
  have leave:
    "emitted (fst (removePresence True (userId_p p) (entityType_p p) (entityId_p p) s))
       = emitted s @ [removalEvent p]"
    by (simp add: removePresence_def broadcastPresenceRemoval_def removalEvent_def Let_def)
  show ?thesis
    using gone ev leave by (simp add: run)
qed

theorem sweep_removes_inactive_presences_witness:
  "wellFormed [(''u1:task:42'', presenceOf ''u1'' ''task'' ''42'' ''viewing'' 0)] \<and>
   inactive 400000 (presenceOf ''u1'' ''task'' ''42'' ''viewing'' 0) \<and>
   cleanupInactivePresences databaseUp 400000
     \<lparr>presences = [(''u1:task:42'', presenceOf ''u1'' ''task'' ''42'' ''viewing'' 0)],
      emitted = []\<rparr>
   = (\<lparr>presences = [], emitted = [(''task:42'', PresenceRemove ''u1'' ''task'' ''42'')]\<rparr>,
      None) \<and>
   removalEvent (presenceOf ''u1'' ''task'' ''42'' ''viewing'' 0)
     \<in> set (emitted (fst (cleanupInactivePresences databaseUp 400000
         \<lparr>presences = [(''u1:task:42'', presenceOf ''u1'' ''task'' ''42'' ''viewing'' 0)],
          emitted = []\<rparr>)))"
proof -
  let ?p = "presenceOf ''u1'' ''task'' ''42'' ''viewing'' 0"
  let ?s = "\<lparr>presences = [(''u1:task:42'', ?p)], emitted = []\<rparr>"
  have wf: "wellFormed (presences ?s)" by (simp add: presence_defs)
  have ok: "\<forall>(k, p) \<in> set (presences ?s). inactive 400000 p \<longrightarrow> databaseUp k"
    by (simp add: databaseUp_def)
  have mem: "(''u1:task:42'', ?p) \<in> set (presences ?s)" by simp
  have old: "inactive 400000 ?p" by (simp add: presence_defs)
  have run: "cleanupInactivePresences databaseUp 400000 ?s
     = (\<lparr>presences = [], emitted = [(''task:42'', PresenceRemove ''u1'' ''task'' ''42'')]\<rparr>,
        None)"
    by (simp add: presence_defs)
  from sweep_removes_inactive_presences[OF wf ok mem old] wf old run
  show ?thesis by simp
qed

end
